theory Spec2Isabelle
  imports Complex_Main "HOL-Library.Log_Nat"
begin

section \<open>The control mapper and the command gate of an object-tracking car controller\<close>

text \<open>
  A shallow embedding of \<^verbatim>\<open>airsim_track_control.py\<close>. A Python \<^verbatim>\<open>float\<close> is an IEEE 754
  double. The model keeps numbers in the type \<^typ>\<open>real\<close> and rounds the result of
  every floating-point operation of the script to the nearest double, so that a value
  that the script computes is the real number that the double denotes.
\<close>

subsection \<open>Python floats\<close>

text \<open>
  Rounding to the nearest integer, ties to the even one.
\<close>

definition round_half_even :: "real \<Rightarrow> int" where
  "round_half_even x =
     (let f = \<lfloor>x\<rfloor>; r = x - of_int f
      in if r < 1 / 2 then f
         else if 1 / 2 < r then f + 1
         else if even f then f else f + 1)"

text \<open>
  The binary exponent \<open>e\<close> of a non-zero number, \<open>2 powi e \<le> \<bar>x\<bar> < 2 powi (e + 1)\<close>,
  computed from the bit length of an integer.
\<close>

definition binade :: "real \<Rightarrow> int" where
  "binade x =
     (if 1 \<le> \<bar>x\<bar> then bitlen \<lfloor>\<bar>x\<bar>\<rfloor> - 1
      else - bitlen (\<lceil>1 / \<bar>x\<bar>\<rceil> - 1))"

text \<open>
  Rounding to 53 significant bits, to the nearest value, ties to the even significand:
  the rounding of IEEE 754 binary64 in its normal range. The exponent is not bounded.
  On doubles this does not change what the script computes or decides: a difference in
  the subnormal range is exact in IEEE arithmetic and is left as it is here, a quotient
  of the mapper is zero or far above that range, and where a difference of two doubles
  would overflow to infinity it is beyond the threshold here as well.
\<close>

definition round_double :: "real \<Rightarrow> real" where
  "round_double x =
     (if x = 0 then 0
      else let ulp = 2 powi (binade x - 52)
           in of_int (round_half_even (x / ulp)) * ulp)"

text \<open>
  The reals with at most 53 significant bits; in the exponent range of binary64 these
  are the doubles.
\<close>

definition is_double :: "real \<Rightarrow> bool" where
  "is_double x = (round_double x = x)"

text \<open>
  The operators \<^verbatim>\<open>-\<close>, \<^verbatim>\<open>/\<close> and \<^verbatim>\<open>*\<close> on floats. An \<^verbatim>\<open>int\<close> operand is converted
  first, without loss for the integers of the script. Negation, \<^verbatim>\<open>abs\<close> and the
  comparisons are exact.
\<close>

definition float_sub :: "real \<Rightarrow> real \<Rightarrow> real" where
  "float_sub a b = round_double (a - b)"

definition float_div :: "real \<Rightarrow> real \<Rightarrow> real" where
  "float_div a b = round_double (a / b)"

definition float_mul :: "real \<Rightarrow> real \<Rightarrow> real" where
  "float_mul a b = round_double (a * b)"

subsection \<open>Module constants\<close>

text \<open>
  The two thresholds are written \<^verbatim>\<open>0.1\<close> in the script: the double nearest to one tenth.
\<close>

definition DIM_X :: real where
  "DIM_X = 640"

definition DIM_Y :: real where
  "DIM_Y = 480"

definition THRESHOLD_CONTOUR :: real where
  "THRESHOLD_CONTOUR = 10"

definition FORWARD_RATIO :: real where
  "FORWARD_RATIO = 2"

definition CONTROL_THROTTLE_THRESHOLD :: real where
  "CONTROL_THROTTLE_THRESHOLD = round_double 0.1"

definition CONTROL_STEERING_THRESHOLD :: real where
  "CONTROL_STEERING_THRESHOLD = round_double 0.1"

subsection \<open>The objects of the AirSim library that the script touches\<close>

text \<open>
  \<^verbatim>\<open>airsim.CarControls\<close>: only the four attributes that the script assigns.
\<close>

record CarControls =
  throttle :: real
  steering :: real
  is_manual_gear :: bool
  manual_gear :: int

datatype error = KeyError string | NotConnected

datatype outcome = Returned | Raised error

text \<open>
  Modelled from the spec: the Simulator Connection (\<^verbatim>\<open>airsim.CarClient\<close>) is a
  library object whose code is not part of the repository. Its interface is
  \<^verbatim>\<open>Session.set_controls(throttle, steering, reverse_gear) -> ()\<close>, which
  ``fails if the session is not connected''. The client is a record of the session
  flag and two traces: every call of \<^verbatim>\<open>setCarControls\<close> in order (\<open>invoked\<close>), and the
  commands that the simulator accepted (\<open>received\<close>). The argument is stored as a
  snapshot, as the RPC serialises it.
\<close>

record CarClient =
  connected :: bool
  invoked :: "CarControls list"
  received :: "CarControls list"

definition setCarControls :: "CarClient \<Rightarrow> CarControls \<Rightarrow> outcome \<times> CarClient" where
  "setCarControls c cc =
     (let c1 = c\<lparr>invoked := invoked c @ [cc]\<rparr>
      in if connected c then (Returned, c1\<lparr>received := received c @ [cc]\<rparr>)
         else (Raised NotConnected, c1))"

text \<open>
  The three mutable objects that \<^verbatim>\<open>main\<close> creates and hands to
  \<^verbatim>\<open>send_controls\<close>. Python mutates them in place; the model passes them along and
  returns them, also when an exception leaves the function, so that what an exception
  leaves behind can be read off.
\<close>

record py_state =
  client :: CarClient
  car_controls :: CarControls
  status_controls :: "string \<rightharpoonup> real"

subsection \<open>The control mapper\<close>

definition coordinates_to_controls :: "real \<Rightarrow> real \<Rightarrow> real \<times> real" where
  "coordinates_to_controls coordinate_x coordinate_y =
     (let raw_throttle = float_div (- float_sub coordinate_y (float_div DIM_Y 2)) DIM_Y;
          raw_steering = float_div (- float_sub coordinate_x (float_div DIM_X 2)) DIM_X
      in if raw_throttle > 0 then (float_mul FORWARD_RATIO raw_throttle, raw_steering)
         else (raw_throttle, raw_steering))"

subsection \<open>The command gate\<close>

text \<open>
  \<^verbatim>\<open>send_controls(client, car_controls, status_controls, throttle, steering)\<close>. The
  two candidate values are called \<open>cand_throttle\<close> and \<open>cand_steering\<close> here, since
  \<open>throttle\<close> and \<open>steering\<close> name the attributes of \<^typ>\<open>CarControls\<close>. A missing
  dictionary key raises \<^verbatim>\<open>KeyError\<close>; the attributes of \<^verbatim>\<open>car_controls\<close> are
  assigned before the simulator is called, the dictionary after it has returned.
\<close>

definition send_controls :: "py_state \<Rightarrow> real \<Rightarrow> real \<Rightarrow> outcome \<times> py_state" where
  "send_controls s cand_throttle cand_steering =
     (case status_controls s ''throttle'' of
        None \<Rightarrow> (Raised (KeyError ''throttle''), s)
      | Some last_throttle \<Rightarrow>
     (case status_controls s ''steering'' of
        None \<Rightarrow> (Raised (KeyError ''steering''), s)
      | Some last_steering \<Rightarrow>
          let diff_throttle =
                \<bar>float_sub last_throttle cand_throttle\<bar> > CONTROL_THROTTLE_THRESHOLD;
              diff_steering =
                \<bar>float_sub last_steering cand_steering\<bar> > CONTROL_STEERING_THRESHOLD
          in if diff_throttle \<or> diff_steering then
               let cc1 = (car_controls s)\<lparr>throttle := cand_throttle, steering := cand_steering\<rparr>;
                   cc2 = (if cand_throttle < 0
                          then cc1\<lparr>is_manual_gear := True, manual_gear := - 1\<rparr>
                          else cc1\<lparr>is_manual_gear := False\<rparr>);
                   s1 = s\<lparr>car_controls := cc2\<rparr>
               in (case setCarControls (client s1) cc2 of
                     (Raised e, c') \<Rightarrow> (Raised e, s1\<lparr>client := c'\<rparr>)
                   | (Returned, c') \<Rightarrow>
                       (Returned,
                        s1\<lparr>client := c',
                           status_controls := (status_controls s1)
                             (''throttle'' \<mapsto> cand_throttle, ''steering'' \<mapsto> cand_steering)\<rparr>))
             else (Returned, s)))"

subsection \<open>The control loop\<close>

text \<open>
  What one iteration of \<^verbatim>\<open>main\<close> gets from OpenCV: either an empty list of contours,
  or the centre and the radius of the circle enclosing the biggest contour.
\<close>

datatype detection = NoContours | Circle real real real

text \<open>
  \<^verbatim>\<open>connect_airsim()\<close>. The two constructors belong to the library; the model takes
  what they produce when the simulator is running: a connected client that has not
  been called yet, and controls with every attribute at zero or \<open>False\<close>.
\<close>

definition connect_airsim :: "CarClient \<times> CarControls" where
  "connect_airsim =
     (let c = \<lparr>connected = True, invoked = [], received = []\<rparr>;
          cc = \<lparr>throttle = 0, steering = 0, is_manual_gear = False, manual_gear = 0\<rparr>
      in (c, cc\<lparr>is_manual_gear := False\<rparr>))"

text \<open>
  The state with which \<^verbatim>\<open>main\<close> enters its loop, given the two objects that
  \<^verbatim>\<open>connect_airsim\<close> returned.
\<close>

definition main_init :: "CarClient \<Rightarrow> CarControls \<Rightarrow> py_state" where
  "main_init c cc =
     \<lparr>client = c, car_controls = cc,
      status_controls = [''throttle'' \<mapsto> 0, ''steering'' \<mapsto> 0]\<rparr>"

text \<open>
  The part of the loop body that drives the car. Drawing on the frame and showing it
  do not touch the three objects and are left out.
\<close>

definition main_iteration :: "py_state \<Rightarrow> detection \<Rightarrow> outcome \<times> py_state" where
  "main_iteration s d =
     (case d of
        Circle coordinate_x coordinate_y radius \<Rightarrow>
          if radius > THRESHOLD_CONTOUR then
            (case coordinates_to_controls coordinate_x coordinate_y of
               (cand_throttle, cand_steering) \<Rightarrow> send_controls s cand_throttle cand_steering)
          else (Returned, s)
      | NoContours \<Rightarrow> send_controls s 0 0)"

subsection \<open>Observations used to state the properties of the gate\<close>

text \<open>
  The pair that the dictionary \<^verbatim>\<open>status_controls\<close> holds (the specification's
  \<open>last_sent\<close>), if both keys are present.
\<close>

definition last_sent :: "py_state \<Rightarrow> (real \<times> real) option" where
  "last_sent s =
     (case status_controls s ''throttle'' of
        None \<Rightarrow> None
      | Some t \<Rightarrow> (case status_controls s ''steering'' of
                    None \<Rightarrow> None
                  | Some st \<Rightarrow> Some (t, st)))"

text \<open>
  The pair of the last command that the simulator accepted, \<open>(0, 0)\<close> when it has
  accepted none.
\<close>

definition last_delivered :: "CarClient \<Rightarrow> real \<times> real" where
  "last_delivered c =
     (case rev (received c) of
        [] \<Rightarrow> (0, 0)
      | cc # _ \<Rightarrow> (throttle cc, steering cc))"

text \<open>
  The gate condition on a pair \<open>sent\<close> of last sent values and a candidate: the
  difference that the script computes is beyond the threshold on at least one axis.
\<close>

definition exceeds :: "real \<times> real \<Rightarrow> real \<Rightarrow> real \<Rightarrow> bool" where
  "exceeds sent cand_throttle cand_steering =
     (\<bar>float_sub (fst sent) cand_throttle\<bar> > CONTROL_THROTTLE_THRESHOLD \<or>
      \<bar>float_sub (snd sent) cand_steering\<bar> > CONTROL_STEERING_THRESHOLD)"

text \<open>
  The attributes of \<^verbatim>\<open>car_controls\<close> as \<^verbatim>\<open>send_controls\<close> leaves them when the gate
  opens.
\<close>

definition command :: "CarControls \<Rightarrow> real \<Rightarrow> real \<Rightarrow> CarControls" where
  "command cc cand_throttle cand_steering =
     (if cand_throttle < 0
      then cc\<lparr>throttle := cand_throttle, steering := cand_steering,
              is_manual_gear := True, manual_gear := - 1\<rparr>
      else cc\<lparr>throttle := cand_throttle, steering := cand_steering,
              is_manual_gear := False\<rparr>)"

text \<open>
  The states that a run can reach: \<^verbatim>\<open>main\<close> starts with a client that has delivered
  nothing; every call of \<^verbatim>\<open>send_controls\<close>, with any candidate and whether it returns
  or raises, leads to the objects as the call leaves them; and between two calls the
  session may be lost or restored.
\<close>

inductive reachable :: "py_state \<Rightarrow> bool" where
  init: "received (c::CarClient) = [] \<Longrightarrow> reachable (main_init c cc)"
| call: "reachable s \<Longrightarrow> reachable (snd (send_controls s cand_throttle cand_steering))"
| link: "reachable s \<Longrightarrow> reachable (s\<lparr>client := (client s)\<lparr>connected := b\<rparr>\<rparr>)"

section \<open>Rounding to a double\<close>

lemma powi_nat: "0 \<le> e \<Longrightarrow> (2::real) powi e = 2 ^ nat e"
  by (simp add: power_int_def)

lemma binade_bounds_ge1:
  assumes "1 \<le> \<bar>x\<bar>"
  shows "2 powi binade x \<le> \<bar>x\<bar> \<and> \<bar>x\<bar> < 2 powi (binade x + 1)"
proof -
  define n where "n = \<lfloor>\<bar>x\<bar>\<rfloor>"
  have n: "0 < n" using assms by (simp add: n_def)
  have b: "binade x = bitlen n - 1" using assms by (simp add: binade_def n_def)
  from bitlen_bounds [OF n]
  have lo: "2 ^ nat (bitlen n - 1) \<le> n" and hi: "n < 2 ^ nat (bitlen n)" by simp_all
  have b1: "1 \<le> bitlen n" using n by (simp add: bitlen_alt_def)
  have "(2::real) powi (bitlen n - 1) = 2 ^ nat (bitlen n - 1)"
    using b1 by (simp add: powi_nat)
  also have "\<dots> \<le> of_int n" using lo
    by (metis of_int_le_iff of_int_numeral of_int_power)
  also have "\<dots> \<le> \<bar>x\<bar>" by (simp add: n_def)
  finally have 1: "2 powi binade x \<le> \<bar>x\<bar>" by (simp add: b)
  have "n + 1 \<le> 2 ^ nat (bitlen n)" using hi by simp
  then have "of_int (n + 1) \<le> (2::real) ^ nat (bitlen n)"
    by (metis of_int_le_iff of_int_numeral of_int_power)
  moreover have "\<bar>x\<bar> < of_int (n + 1)" by (simp add: n_def)
  ultimately have "\<bar>x\<bar> < (2::real) ^ nat (bitlen n)" by linarith
  also have "\<dots> = 2 powi (bitlen n)" using b1 by (simp add: powi_nat)
  finally have 2: "\<bar>x\<bar> < 2 powi (binade x + 1)" by (simp add: b)
  from 1 2 show ?thesis ..
qed

lemma binade_bounds_lt1:
  assumes "x \<noteq> 0" and "\<bar>x\<bar> < 1"
  shows "2 powi binade x \<le> \<bar>x\<bar> \<and> \<bar>x\<bar> < 2 powi (binade x + 1)"
proof -
  define y where "y = 1 / \<bar>x\<bar>"
  define n where "n = \<lceil>y\<rceil> - 1"
  have y1: "1 < y" using assms by (simp add: y_def)
  have n: "0 < n" using y1 by (simp add: n_def)
  have ny: "of_int n < y" and yn: "y \<le> of_int n + 1"
    unfolding n_def by linarith+
  have b: "binade x = - bitlen n" using assms by (simp add: binade_def n_def y_def)
  from bitlen_bounds [OF n]
  have lo: "2 ^ nat (bitlen n - 1) \<le> n" and hi: "n < 2 ^ nat (bitlen n)" by simp_all
  have b1: "1 \<le> bitlen n" using n by (simp add: bitlen_alt_def)
  have x: "\<bar>x\<bar> = 1 / y" using assms by (simp add: y_def)
  have "n + 1 \<le> 2 ^ nat (bitlen n)" using hi by simp
  then have "of_int (n + 1) \<le> (2::real) ^ nat (bitlen n)"
    by (metis of_int_le_iff of_int_numeral of_int_power)
  with yn have "y \<le> (2::real) ^ nat (bitlen n)" by linarith
  then have "1 / (2::real) ^ nat (bitlen n) \<le> 1 / y"
    using y1 by (simp add: frac_le)
  moreover have "(2::real) powi (- bitlen n) = 1 / 2 ^ nat (bitlen n)"
    using b1 by (simp add: power_int_minus_divide powi_nat)
  ultimately have 1: "2 powi binade x \<le> \<bar>x\<bar>" by (simp add: b x)
  have "(2::real) ^ nat (bitlen n - 1) \<le> of_int n" using lo
    by (metis of_int_le_iff of_int_numeral of_int_power)
  with ny have "(2::real) ^ nat (bitlen n - 1) < y" by linarith
  then have "1 / y < 1 / (2::real) ^ nat (bitlen n - 1)"
    by (simp add: frac_less2)
  moreover have "(2::real) powi (- bitlen n + 1) = 1 / 2 ^ nat (bitlen n - 1)"
  proof -
    have "- bitlen n + 1 = - (bitlen n - 1)" by simp
    then show ?thesis using b1
      by (simp only: power_int_minus_divide) (simp add: powi_nat)
  qed
  ultimately have 2: "\<bar>x\<bar> < 2 powi (binade x + 1)" by (simp add: b x)
  from 1 2 show ?thesis ..
qed

lemma binade_bounds:
  "x \<noteq> 0 \<Longrightarrow> 2 powi binade x \<le> \<bar>x\<bar> \<and> \<bar>x\<bar> < 2 powi (binade x + 1)"
  using binade_bounds_ge1 [of x] binade_bounds_lt1 [of x] by linarith

lemma binade_minus: "binade (- x) = binade x"
  by (simp add: binade_def)

lemma round_half_even_of_int: "round_half_even (of_int k) = k"
  by (simp add: round_half_even_def)

lemma round_half_even_le: "x \<le> of_int m \<Longrightarrow> round_half_even x \<le> m"
proof (cases "x = of_int m")
  case True
  then show ?thesis by (simp add: round_half_even_of_int)
next
  case False
  assume "x \<le> of_int m"
  with False have "x < of_int m" by simp
  then have "\<lfloor>x\<rfloor> < m" by (simp add: floor_less_iff)
  then show ?thesis
    by (simp add: round_half_even_def Let_def)
qed

lemma round_half_even_ge: "of_int m \<le> x \<Longrightarrow> m \<le> round_half_even x"
proof -
  assume "of_int m \<le> x"
  then have "m \<le> \<lfloor>x\<rfloor>" by (simp add: le_floor_iff)
  then show ?thesis
    by (simp add: round_half_even_def Let_def)
qed

lemma round_half_even_minus: "round_half_even (- x) = - round_half_even x"
proof (cases "x = of_int \<lfloor>x\<rfloor>")
  case True
  then have "round_half_even (- of_int \<lfloor>x\<rfloor>) = - round_half_even (of_int \<lfloor>x\<rfloor>)"
    by (metis of_int_minus round_half_even_of_int)
  with True show ?thesis by simp
next
  case False
  then have f: "\<lfloor>- x\<rfloor> = - \<lfloor>x\<rfloor> - 1"
    by (metis ceiling_def ceiling_altdef diff_minus_eq_add minus_diff_eq
        add.inverse_inverse diff_add_cancel minus_add_distrib uminus_add_conv_diff)
  have e: "even (- \<lfloor>x\<rfloor> - 1) = odd \<lfloor>x\<rfloor>" by simp
  show ?thesis
    unfolding round_half_even_def Let_def f e
    by (simp add: field_simps)
qed

lemma round_double_0: "round_double 0 = 0"
  by (simp add: round_double_def)

lemma round_double_minus: "round_double (- x) = - round_double x"
  by (simp add: round_double_def binade_minus round_half_even_minus Let_def)

lemma ulp_pos: "0 < (2::real) powi e"
  by simp

lemma quotient_bounds:
  assumes "0 < x"
  shows "2 ^ 52 \<le> x / 2 powi (binade x - 52) \<and> x / 2 powi (binade x - 52) < 2 ^ 53"
proof -
  from assms binade_bounds [of x]
  have lo: "2 powi binade x \<le> x" and hi: "x < 2 powi (binade x + 1)" by simp_all
  have a: "(2::real) powi binade x = 2 ^ 52 * 2 powi (binade x - 52)"
    by (simp add: power_int_diff)
  have b: "(2::real) powi (binade x + 1) = 2 ^ 53 * 2 powi (binade x - 52)"
    by (simp add: power_int_diff power_int_add)
  from lo hi show ?thesis
    unfolding a b by (simp add: pos_le_divide_eq pos_divide_less_eq)
qed

lemma round_double_pos_bounds:
  assumes "0 < x"
  shows "2 powi binade x \<le> round_double x \<and> round_double x \<le> 2 powi (binade x + 1)"
proof -
  let ?u = "(2::real) powi (binade x - 52)"
  from quotient_bounds [OF assms]
  have q1: "of_int (2 ^ 52) \<le> x / ?u" and q2: "x / ?u \<le> of_int (2 ^ 53)" by simp_all
  have "2 ^ 52 \<le> round_half_even (x / ?u)" and "round_half_even (x / ?u) \<le> 2 ^ 53"
    using round_half_even_ge [OF q1] round_half_even_le [OF q2] by simp_all
  then have "(2::real) ^ 52 \<le> of_int (round_half_even (x / ?u))"
    and "of_int (round_half_even (x / ?u)) \<le> (2::real) ^ 53"
    by (metis of_int_le_iff of_int_numeral of_int_power)+
  then have "2 ^ 52 * ?u \<le> of_int (round_half_even (x / ?u)) * ?u"
    and "of_int (round_half_even (x / ?u)) * ?u \<le> 2 ^ 53 * ?u"
    by simp_all
  moreover have "round_double x = of_int (round_half_even (x / ?u)) * ?u"
    using assms by (simp add: round_double_def Let_def)
  moreover have "(2::real) powi binade x = 2 ^ 52 * ?u"
    by (simp add: power_int_diff)
  moreover have "(2::real) powi (binade x + 1) = 2 ^ 53 * ?u"
    by (simp add: power_int_diff power_int_add)
  ultimately show ?thesis by simp
qed

lemma round_double_pos: "0 < x \<Longrightarrow> 0 < round_double x"
  using round_double_pos_bounds [of x] ulp_pos [of "binade x"] by linarith

lemma round_double_neg: "x < 0 \<Longrightarrow> round_double x < 0"
  using round_double_pos [of "- x"] by (simp add: round_double_minus)

lemma mantissa_bounds:
  assumes "0 < x"
  shows "2 ^ 52 \<le> round_half_even (x / 2 powi (binade x - 52)) \<and>
         round_half_even (x / 2 powi (binade x - 52)) \<le> 2 ^ 53"
proof -
  let ?u = "(2::real) powi (binade x - 52)"
  from quotient_bounds [OF assms]
  have q1: "of_int (2 ^ 52) \<le> x / ?u" and q2: "x / ?u \<le> of_int (2 ^ 53)" by simp_all
  show ?thesis
    using round_half_even_ge [OF q1] round_half_even_le [OF q2] by simp
qed

lemma on_grid:
  assumes "0 < k" and "k < 2 ^ 53" and "2 powi e \<le> of_int k * (2::real) powi j"
  shows "\<exists>m. of_int k * (2::real) powi j = of_int m * 2 powi (e - 52)"
proof -
  have "e - 52 \<le> j"
  proof (rule ccontr)
    assume "\<not> e - 52 \<le> j"
    then have "j \<le> e - 53" by simp
    then have "(2::real) powi j \<le> 2 powi (e - 53)"
      by (simp add: power_int_increasing)
    moreover have "of_int k < (2::real) ^ 53"
      using assms(2) by (metis of_int_less_iff of_int_numeral of_int_power)
    moreover have "0 < (2::real) powi j" by simp
    ultimately have "of_int k * (2::real) powi j < 2 ^ 53 * 2 powi (e - 53)"
      using assms(1) by (intro mult_less_le_imp_less) simp_all
    also have "\<dots> = 2 powi e"
      by (simp add: power_int_diff)
    finally show False using assms(3) by simp
  qed
  then have "(2::real) powi j = 2 ^ nat (j - (e - 52)) * 2 powi (e - 52)"
    by (simp add: power_int_diff flip: powi_nat)
  then have "of_int k * (2::real) powi j =
      of_int (k * 2 ^ nat (j - (e - 52))) * 2 powi (e - 52)"
    by simp
  then show ?thesis ..
qed

lemma round_double_le_pos:
  assumes "0 < x" and "x \<le> of_int k * 2 powi j" and "\<bar>k\<bar> < 2 ^ 53"
  shows "round_double x \<le> of_int k * 2 powi j"
proof -
  let ?u = "(2::real) powi (binade x - 52)"
  from assms(1,2) have "0 < of_int k * (2::real) powi j" by simp
  then have k: "0 < k"
    using ulp_pos [of j] by (simp add: zero_less_mult_iff not_less [symmetric] less_imp_le)
  with assms(3) have k53: "k < 2 ^ 53" by simp
  from binade_bounds [of x] assms(1,2)
  have "2 powi binade x \<le> of_int k * (2::real) powi j" by simp
  from on_grid [OF k k53 this]
  obtain m where m: "of_int k * (2::real) powi j = of_int m * ?u" ..
  with assms(2) have "x / ?u \<le> of_int m"
    by (simp add: pos_divide_le_eq)
  then have "round_half_even (x / ?u) \<le> m" by (rule round_half_even_le)
  then have "of_int (round_half_even (x / ?u)) * ?u \<le> of_int m * ?u"
    by simp
  with m assms(1) show ?thesis
    by (simp add: round_double_def Let_def)
qed

lemma round_double_ge_pos:
  assumes "0 < of_int k * (2::real) powi j" and "of_int k * 2 powi j \<le> x" and "\<bar>k\<bar> < 2 ^ 53"
  shows "of_int k * 2 powi j \<le> round_double x"
proof (cases "2 powi binade x \<le> of_int k * (2::real) powi j")
  case False
  from assms(1,2) have "0 < x" by simp
  from round_double_pos_bounds [OF this] False show ?thesis by simp
next
  case True
  let ?u = "(2::real) powi (binade x - 52)"
  from assms(1,2) have x: "0 < x" by simp
  from assms(1) have k: "0 < k"
    using ulp_pos [of j] by (simp add: zero_less_mult_iff not_less [symmetric] less_imp_le)
  with assms(3) have k53: "k < 2 ^ 53" by simp
  from on_grid [OF k k53 True]
  obtain m where m: "of_int k * (2::real) powi j = of_int m * ?u" ..
  with assms(2) have "of_int m \<le> x / ?u"
    by (simp add: pos_le_divide_eq)
  then have "m \<le> round_half_even (x / ?u)" by (rule round_half_even_ge)
  then have "of_int m * ?u \<le> of_int (round_half_even (x / ?u)) * ?u"
    by simp
  with m x show ?thesis
    by (simp add: round_double_def Let_def)
qed

lemma round_double_representable:
  assumes "\<bar>k\<bar> < 2 ^ 53"
  shows "round_double (of_int k * 2 powi j) = of_int k * 2 powi j"
proof -
  have pos: "round_double (of_int i * 2 powi j) = of_int i * 2 powi j"
    if "0 < i" and "\<bar>i\<bar> < 2 ^ 53" for i
  proof -
    from that(1) have p: "0 < of_int i * (2::real) powi j" by simp
    from round_double_le_pos [OF p order_refl that(2)]
      round_double_ge_pos [OF p order_refl that(2)]
    show ?thesis by simp
  qed
  consider "0 < k" | "k = 0" | "k < 0" by linarith
  then show ?thesis
  proof cases
    case 1
    with assms show ?thesis by (simp add: pos)
  next
    case 2
    then show ?thesis by (simp add: round_double_0)
  next
    case 3
    with assms have "round_double (of_int (- k) * 2 powi j) = of_int (- k) * 2 powi j"
      by (intro pos) simp_all
    then show ?thesis
      using round_double_minus [of "of_int k * 2 powi j"] by simp
  qed
qed

lemma round_double_form:
  "\<exists>k j. \<bar>k\<bar> < 2 ^ 53 \<and> round_double x = of_int k * 2 powi j"
proof -
  have pos: "\<exists>k j. \<bar>k\<bar> < 2 ^ 53 \<and> round_double y = of_int k * 2 powi j" if "0 < y" for y
  proof -
    let ?m = "round_half_even (y / 2 powi (binade y - 52))"
    from mantissa_bounds [OF that] have lo: "2 ^ 52 \<le> ?m" and hi: "?m \<le> 2 ^ 53"
      by simp_all
    have r: "round_double y = of_int ?m * 2 powi (binade y - 52)"
      using that by (simp add: round_double_def Let_def)
    show ?thesis
    proof (cases "?m = 2 ^ 53")
      case False
      with lo hi have "\<bar>?m\<bar> < 2 ^ 53" by simp
      with r show ?thesis by blast
    next
      case True
      with r have "round_double y = of_int 1 * 2 powi (binade y + 1)"
        by (simp add: power_int_diff power_int_add)
      moreover have "\<bar>1::int\<bar> < 2 ^ 53" by simp
      ultimately show ?thesis by blast
    qed
  qed
  consider "0 < x" | "x = 0" | "x < 0" by linarith
  then show ?thesis
  proof cases
    case 1
    then show ?thesis by (rule pos)
  next
    case 2
    have "\<bar>0::int\<bar> < 2 ^ 53 \<and> round_double x = of_int 0 * 2 powi 0"
      using 2 by (simp add: round_double_0)
    then show ?thesis by blast
  next
    case 3
    then have "0 < - x" by simp
    from pos [OF this] obtain k j
      where "\<bar>k\<bar> < 2 ^ 53" and "round_double (- x) = of_int k * 2 powi j" by blast
    then have "\<bar>- k\<bar> < 2 ^ 53 \<and> round_double x = of_int (- k) * 2 powi j"
      by (simp add: round_double_minus)
    then show ?thesis by blast
  qed
qed

lemma is_double_round_double: "is_double (round_double x)"
proof -
  from round_double_form [of x] obtain k j
    where "\<bar>k\<bar> < 2 ^ 53" and "round_double x = of_int k * 2 powi j" by blast
  then show ?thesis
    by (simp add: is_double_def round_double_representable)
qed

lemma is_double_form:
  assumes "is_double c"
  obtains k j where "\<bar>k\<bar> < 2 ^ 53" and "c = of_int k * 2 powi j"
  using assms round_double_form [of c] by (auto simp add: is_double_def)

lemma is_double_minus: "is_double (- c) = is_double c"
  by (auto simp add: is_double_def round_double_minus)

lemma is_double_twice:
  assumes "is_double c"
  shows "is_double (2 * c)"
proof -
  from assms obtain k j where k: "\<bar>k\<bar> < 2 ^ 53" and c: "c = of_int k * 2 powi j"
    by (rule is_double_form)
  from c have "2 * c = of_int k * 2 powi (j + 1)"
    by (simp add: power_int_add)
  with k show ?thesis
    by (simp only: is_double_def round_double_representable)
qed

lemma round_double_le:
  assumes "is_double c" and "x \<le> c"
  shows "round_double x \<le> c"
proof -
  from assms(1) obtain k j where k: "\<bar>k\<bar> < 2 ^ 53" and c: "c = of_int k * 2 powi j"
    by (rule is_double_form)
  consider "0 < x" | "x = 0" | "x < 0" "0 \<le> c" | "x < 0" "c < 0" by linarith
  then show ?thesis
  proof cases
    case 1
    with assms(2) k show ?thesis
      unfolding c by (intro round_double_le_pos)
  next
    case 2
    with assms(2) show ?thesis by (simp add: round_double_0)
  next
    case 3
    with round_double_neg [of x] show ?thesis by simp
  next
    case 4
    have "of_int (- k) * 2 powi j \<le> round_double (- x)"
    proof (rule round_double_ge_pos)
      from 4 show "0 < of_int (- k) * (2::real) powi j" by (simp add: c)
      from assms(2) show "of_int (- k) * 2 powi j \<le> - x" by (simp add: c)
      from k show "\<bar>- k\<bar> < 2 ^ 53" by simp
    qed
    then show ?thesis
      by (simp add: c round_double_minus)
  qed
qed

lemma round_double_ge:
  assumes "is_double c" and "c \<le> x"
  shows "c \<le> round_double x"
proof -
  from assms(1) have "is_double (- c)" by (simp add: is_double_minus)
  moreover from assms(2) have "- x \<le> - c" by simp
  ultimately have "round_double (- x) \<le> - c" by (rule round_double_le)
  then show ?thesis by (simp add: round_double_minus)
qed

lemma round_double_abs_le:
  assumes "is_double c" and "\<bar>x\<bar> \<le> c"
  shows "\<bar>round_double x\<bar> \<le> c"
proof -
  from assms(2) have "x \<le> c" and "- c \<le> x" by simp_all
  with assms(1) have "round_double x \<le> c" and "- c \<le> round_double x"
    by (simp_all add: round_double_le round_double_ge is_double_minus)
  then show ?thesis by simp
qed

text \<open>
  Evaluation of the rounding at a numeral.
\<close>

lemmas round_eval =
  round_double_def binade_def round_half_even_def compute_bitlen Let_def

lemma is_double_numerals:
  "is_double 0" "is_double 1" "is_double (1 / 2)" "is_double 240" "is_double 320"
  by (simp_all add: is_double_def round_eval)

lemma threshold_value:
  "CONTROL_THROTTLE_THRESHOLD = 3602879701896397 / 2 ^ 55"
  "CONTROL_STEERING_THRESHOLD = 3602879701896397 / 2 ^ 55"
  by (simp_all add: CONTROL_THROTTLE_THRESHOLD_def CONTROL_STEERING_THRESHOLD_def round_eval)

section \<open>The control mapper: properties\<close>

lemma half_dimensions:
  "float_div DIM_X 2 = 320" "float_div DIM_Y 2 = 240"
  by (simp_all add: float_div_def DIM_X_def DIM_Y_def round_eval)

text \<open>
  C7. Centering: an object at the centre of the frame, \<open>(DIM_X/2, DIM_Y/2)\<close>, is mapped to
  exactly \<open>(0, 0)\<close>.
\<close>

theorem centering_property:
  "coordinates_to_controls (DIM_X / 2) (DIM_Y / 2) = (0, 0)"
  by (simp add: coordinates_to_controls_def half_dimensions)
    (simp add: DIM_X_def DIM_Y_def float_sub_def float_div_def round_double_0)


lemma mapper_steering:
  "snd (coordinates_to_controls x y) = float_div (- float_sub x 320) 640"
  unfolding coordinates_to_controls_def half_dimensions
  by (simp add: Let_def DIM_X_def)

lemma mapper_throttle:
  "fst (coordinates_to_controls x y) =
     (if float_div (- float_sub y 240) 480 > 0
      then float_mul 2 (float_div (- float_sub y 240) 480)
      else float_div (- float_sub y 240) 480)"
  unfolding coordinates_to_controls_def half_dimensions
  by (simp add: Let_def DIM_Y_def FORWARD_RATIO_def)

text \<open>
  C6. Forward asymmetry: for every \<open>x\<close> and every distance \<open>d > 0\<close>, the throttle for an
  object \<open>d\<close> pixels above the vertical centre is \<open>- FORWARD_RATIO\<close> times the throttle
  for an object \<open>d\<close> pixels below it.
\<close>

theorem forward_asymmetry:
  "0 < d \<Longrightarrow>
   fst (coordinates_to_controls x (DIM_Y / 2 - d)) =
     - FORWARD_RATIO * fst (coordinates_to_controls x (DIM_Y / 2 + d))"
proof -
  assume d: "0 < d"
  define a where "a = round_double d"
  define r where "r = round_double (a / 480)"
  from d have a: "0 < a" by (simp add: a_def round_double_pos)
  then have r: "0 < r" by (simp add: r_def round_double_pos)
  have up: "float_sub (DIM_Y / 2 - d) 240 = - a"
    by (simp add: float_sub_def DIM_Y_def a_def round_double_minus)
  have down: "float_sub (DIM_Y / 2 + d) 240 = a"
    by (simp add: float_sub_def DIM_Y_def a_def)
  have r1: "float_div a 480 = r"
    by (simp add: float_div_def r_def)
  have r2: "float_div (- a) 480 = - r"
    using round_double_minus [of "a / 480"] by (simp add: float_div_def r_def)
  have "is_double (2 * r)"
    unfolding r_def by (intro is_double_twice is_double_round_double)
  then have twice: "float_mul 2 r = 2 * r"
    by (simp add: float_mul_def is_double_def)
  from r have t1: "fst (coordinates_to_controls x (DIM_Y / 2 - d)) = 2 * r"
    by (simp add: mapper_throttle up r1 twice)
  from r have t2: "fst (coordinates_to_controls x (DIM_Y / 2 + d)) = - r"
    by (simp add: mapper_throttle down r2)
  from t1 t2 show ?thesis
    by (simp add: FORWARD_RATIO_def)
qed

theorem forward_asymmetry_witness:
  "(0::real) < 120 \<and>
   fst (coordinates_to_controls 320 (DIM_Y / 2 - 120)) = 1 / 2 \<and>
   - FORWARD_RATIO * fst (coordinates_to_controls 320 (DIM_Y / 2 + 120)) = 1 / 2"
proof -
  have d: "(0::real) < 120" by simp
  have "fst (coordinates_to_controls 320 (DIM_Y / 2 + 120)) = - (1 / 4)"
    by (simp add: mapper_throttle DIM_Y_def float_sub_def float_div_def round_eval)
  with forward_asymmetry [OF d, of 320] d show ?thesis
    by (simp add: FORWARD_RATIO_def)
qed

text \<open>
  C8. Steering sign convention: on the vertical centre line, an object left of the
  horizontal centre gives a positive steering and an object right of it a negative one.
\<close>

theorem steering_sign_convention:
  "(x < DIM_X / 2 \<longrightarrow> snd (coordinates_to_controls x (DIM_Y / 2)) > 0) \<and>
   (x > DIM_X / 2 \<longrightarrow> snd (coordinates_to_controls x (DIM_Y / 2)) < 0)"
proof (intro conjI impI)
  assume "x < DIM_X / 2"
  then have "float_sub x 320 < 0"
    by (simp add: float_sub_def DIM_X_def round_double_neg)
  then have "0 < - float_sub x 320 / 640" by simp
  then show "snd (coordinates_to_controls x (DIM_Y / 2)) > 0"
    unfolding mapper_steering float_div_def by (rule round_double_pos)
next
  assume "x > DIM_X / 2"
  then have "0 < float_sub x 320"
    by (simp add: float_sub_def DIM_X_def round_double_pos)
  then have "- float_sub x 320 / 640 < 0" by simp
  then show "snd (coordinates_to_controls x (DIM_Y / 2)) < 0"
    unfolding mapper_steering float_div_def by (rule round_double_neg)
qed

theorem steering_sign_convention_witness:
  "(100::real) < DIM_X / 2 \<and> snd (coordinates_to_controls 100 (DIM_Y / 2)) > 0 \<and>
   (500::real) > DIM_X / 2 \<and> snd (coordinates_to_controls 500 (DIM_Y / 2)) < 0"
  using steering_sign_convention [of 100] steering_sign_convention [of 500]
  by (simp add: DIM_X_def)

text \<open>
  C9. Without any clamping, the mapper is bounded on the frame: with \<open>DIM_X = 640\<close>,
  \<open>DIM_Y = 480\<close> and \<open>FORWARD_RATIO = 2\<close>, every \<open>x\<close> in \<open>[0, DIM_X]\<close> and \<open>y\<close> in
  \<open>[0, DIM_Y]\<close> give a throttle in \<open>[-1/2, 1]\<close> and a steering in \<open>[-1/2, 1/2]\<close>, hence
  both within \<open>[-1, 1]\<close>.
\<close>

lemma centred_quotient_bound:
  assumes "\<bar>z - c\<bar> \<le> c" and "is_double c" and "0 < c"
  shows "\<bar>float_div (- float_sub z c) (2 * c)\<bar> \<le> 1 / 2"
proof -
  from assms(1,2) have "\<bar>float_sub z c\<bar> \<le> c"
    unfolding float_sub_def by (intro round_double_abs_le)
  with assms(3) have "\<bar>- float_sub z c / (2 * c)\<bar> \<le> 1 / 2"
    by (simp add: field_simps)
  then show ?thesis
    unfolding float_div_def by (intro round_double_abs_le is_double_numerals)
qed

theorem mapper_outputs_bounded:
  assumes "0 \<le> x" and "x \<le> DIM_X" and "0 \<le> y" and "y \<le> DIM_Y"
  shows "DIM_X = 640 \<and> DIM_Y = 480 \<and> FORWARD_RATIO = 2 \<and>
         - (1 / 2) \<le> fst (coordinates_to_controls x y) \<and>
         fst (coordinates_to_controls x y) \<le> 1 \<and>
         - (1 / 2) \<le> snd (coordinates_to_controls x y) \<and>
         snd (coordinates_to_controls x y) \<le> 1 / 2 \<and>
         \<bar>fst (coordinates_to_controls x y)\<bar> \<le> 1 \<and>
         \<bar>snd (coordinates_to_controls x y)\<bar> \<le> 1"
proof -
  define r where "r = float_div (- float_sub y 240) 480"
  from assms(1,2) have "\<bar>x - 320\<bar> \<le> 320" by (simp add: DIM_X_def abs_le_iff)
  from centred_quotient_bound [OF this] is_double_numerals
  have st: "\<bar>snd (coordinates_to_controls x y)\<bar> \<le> 1 / 2"
    by (simp add: mapper_steering)
  from assms(3,4) have "\<bar>y - 240\<bar> \<le> 240" by (simp add: DIM_Y_def abs_le_iff)
  from centred_quotient_bound [OF this] is_double_numerals
  have r: "\<bar>r\<bar> \<le> 1 / 2"
    by (simp add: r_def)
  have th: "- (1 / 2) \<le> fst (coordinates_to_controls x y) \<and>
      fst (coordinates_to_controls x y) \<le> 1"
  proof (cases "0 < r")
    case True
    with r have "0 < 2 * r" and "2 * r \<le> 1" by simp_all
    then have "0 < float_mul 2 r" and "float_mul 2 r \<le> 1"
      unfolding float_mul_def
      by (simp_all add: round_double_pos round_double_le is_double_numerals)
    with True show ?thesis
      by (simp add: mapper_throttle flip: r_def)
  next
    case False
    with r show ?thesis
      by (simp add: mapper_throttle flip: r_def)
  qed
  from st th show ?thesis
    unfolding DIM_X_def DIM_Y_def FORWARD_RATIO_def
    by (intro conjI refl) linarith+
qed

theorem mapper_outputs_bounded_witness:
  "(0::real) \<le> 640 \<and> 640 \<le> DIM_X \<and> (0::real) \<le> 0 \<and> 0 \<le> DIM_Y \<and>
   coordinates_to_controls 640 0 = (1, - (1 / 2)) \<and>
   - (1 / 2) \<le> fst (coordinates_to_controls 640 0) \<and>
   fst (coordinates_to_controls 640 0) \<le> 1 \<and>
   - (1 / 2) \<le> snd (coordinates_to_controls 640 0) \<and>
   snd (coordinates_to_controls 640 0) \<le> 1 / 2"
proof -
  have h: "(0::real) \<le> 640" "640 \<le> DIM_X" "(0::real) \<le> 0" "0 \<le> DIM_Y"
    by (simp_all add: DIM_X_def DIM_Y_def)
  have "fst (coordinates_to_controls 640 0) = 1"
    by (simp add: mapper_throttle float_sub_def float_div_def float_mul_def round_eval)
  moreover have "snd (coordinates_to_controls 640 0) = - (1 / 2)"
    by (simp add: mapper_steering float_sub_def float_div_def round_eval)
  ultimately have v: "coordinates_to_controls 640 0 = (1, - (1 / 2))"
    by (simp add: prod_eq_iff)
  from mapper_outputs_bounded [OF h] h v show ?thesis
    by (simp add: DIM_X_def DIM_Y_def FORWARD_RATIO_def)
qed

section \<open>The command gate: properties\<close>

subsection \<open>The three ways through \<^verbatim>\<open>send_controls\<close>\<close>

lemma last_sent_SomeD:
  "last_sent s = Some l \<Longrightarrow>
   status_controls s ''throttle'' = Some (fst l) \<and> status_controls s ''steering'' = Some (snd l)"
  by (auto simp add: last_sent_def split: option.splits)

lemma last_sent_eqI:
  "status_controls s' = status_controls s \<Longrightarrow> last_sent s' = last_sent s"
  by (simp add: last_sent_def cong: option.case_cong)

lemma last_delivered_eqI:
  "received c' = received c \<Longrightarrow> last_delivered c' = last_delivered c"
  by (simp add: last_delivered_def)

lemma send_controls_suppressed:
  assumes "last_sent s = Some l" and "\<not> exceeds l t st"
  shows "send_controls s t st = (Returned, s)"
  using last_sent_SomeD [OF assms(1)] assms(2)
  by (simp add: send_controls_def exceeds_def)

lemma send_controls_delivered:
  assumes "last_sent s = Some l" and "exceeds l t st" and "connected (client s)"
  shows "send_controls s t st =
           (Returned,
            s\<lparr>car_controls := command (car_controls s) t st,
              client := (client s)
                \<lparr>invoked := invoked (client s) @ [command (car_controls s) t st],
                 received := received (client s) @ [command (car_controls s) t st]\<rparr>,
              status_controls := (status_controls s)(''throttle'' \<mapsto> t, ''steering'' \<mapsto> st)\<rparr>)"
  using last_sent_SomeD [OF assms(1)] assms(2,3)
  by (simp add: send_controls_def exceeds_def setCarControls_def command_def Let_def)

lemma send_controls_failed:
  assumes "last_sent s = Some l" and "exceeds l t st" and "\<not> connected (client s)"
  shows "send_controls s t st =
           (Raised NotConnected,
            s\<lparr>car_controls := command (car_controls s) t st,
              client := (client s)
                \<lparr>invoked := invoked (client s) @ [command (car_controls s) t st]\<rparr>\<rparr>)"
  using last_sent_SomeD [OF assms(1)] assms(2,3)
  by (simp add: send_controls_def exceeds_def setCarControls_def command_def Let_def)

lemma command_pair:
  "throttle (command cc t st) = t \<and> steering (command cc t st) = st"
  by (simp add: command_def)

lemma send_controls_keeps_invariant:
  assumes "last_sent s = Some (last_delivered (client s))"
  shows "last_sent (snd (send_controls s t st)) =
           Some (last_delivered (client (snd (send_controls s t st))))"
proof (cases "exceeds (last_delivered (client s)) t st")
  case False
  with assms show ?thesis
    by (simp add: send_controls_suppressed)
next
  case True
  show ?thesis
  proof (cases "connected (client s)")
    case True
    from send_controls_delivered [OF assms \<open>exceeds (last_delivered (client s)) t st\<close> True]
    show ?thesis
      by (simp add: last_delivered_def command_pair last_sent_def)
  next
    case False
    from send_controls_failed [OF assms \<open>exceeds (last_delivered (client s)) t st\<close> False]
    have "last_sent (snd (send_controls s t st)) = last_sent s"
      and "last_delivered (client (snd (send_controls s t st))) = last_delivered (client s)"
      by (simp_all add: last_delivered_def last_sent_def cong: option.case_cong)
    with assms show ?thesis by simp
  qed
qed

lemma send_controls_raised_cases:
  assumes "fst (send_controls s t st) = Raised e"
  shows "snd (send_controls s t st) = s \<or>
         (\<exists>l. last_sent s = Some l \<and> exceeds l t st \<and> \<not> connected (client s))"
proof (cases "last_sent s")
  case None
  then show ?thesis
    by (auto simp add: send_controls_def last_sent_def split: option.splits)
next
  case (Some l)
  show ?thesis
  proof (cases "exceeds l t st")
    case False
    with Some show ?thesis by (simp add: send_controls_suppressed)
  next
    case True
    with Some assms show ?thesis
      by (cases "connected (client s)") (auto simp add: send_controls_delivered)
  qed
qed

lemma insignificant_contour_skips_gate:
  "radius \<le> THRESHOLD_CONTOUR \<Longrightarrow>
   main_iteration s (Circle coordinate_x coordinate_y radius) = (Returned, s)"
  by (simp add: main_iteration_def)

subsection \<open>The claims about the gate\<close>

text \<open>
  C1. For every state of the gate and every candidate, \<^verbatim>\<open>send_controls\<close> calls the
  simulator's set-controls operation if and only if the difference between the last sent
  value and the candidate, as the script computes it in double arithmetic, is beyond
  \<open>CONTROL_THROTTLE_THRESHOLD\<close> in throttle or beyond \<open>CONTROL_STEERING_THRESHOLD\<close> in
  steering, both thresholds being the double \<^verbatim>\<open>0.1\<close>. In particular, from
  \<open>last_sent = (0, 0)\<close> the candidate \<^verbatim>\<open>(0.05, 0.05)\<close> is not transmitted and leaves
  everything as it was, while \<^verbatim>\<open>(0.15, 0)\<close> is transmitted and, the simulator accepting
  it, becomes the new \<open>last_sent\<close>.
\<close>

theorem command_gate_iff:
  "(last_sent s = Some (lt, ls) \<longrightarrow>
      (invoked (client (snd (send_controls s t st))) \<noteq> invoked (client s)) =
      (\<bar>float_sub lt t\<bar> > CONTROL_THROTTLE_THRESHOLD \<or>
       \<bar>float_sub ls st\<bar> > CONTROL_STEERING_THRESHOLD)) \<and>
   (last_sent s = Some (0, 0) \<longrightarrow>
      send_controls s (round_double 0.05) (round_double 0.05) = (Returned, s)) \<and>
   (last_sent s = Some (0, 0) \<longrightarrow>
      invoked (client (snd (send_controls s (round_double 0.15) 0))) =
        invoked (client s) @ [car_controls (snd (send_controls s (round_double 0.15) 0))] \<and>
      throttle (car_controls (snd (send_controls s (round_double 0.15) 0))) =
        round_double 0.15 \<and>
      steering (car_controls (snd (send_controls s (round_double 0.15) 0))) = 0 \<and>
      \<not> is_manual_gear (car_controls (snd (send_controls s (round_double 0.15) 0))) \<and>
      (connected (client s) \<longrightarrow>
         fst (send_controls s (round_double 0.15) 0) = Returned \<and>
         last_sent (snd (send_controls s (round_double 0.15) 0)) =
           Some (round_double 0.15, 0)))"
proof (intro conjI impI)
  assume l: "last_sent s = Some (lt, ls)"
  show "(invoked (client (snd (send_controls s t st))) \<noteq> invoked (client s)) =
        (\<bar>float_sub lt t\<bar> > CONTROL_THROTTLE_THRESHOLD \<or>
         \<bar>float_sub ls st\<bar> > CONTROL_STEERING_THRESHOLD)"
  proof (cases "exceeds (lt, ls) t st")
    case False
    with l show ?thesis
      by (simp add: send_controls_suppressed) (simp add: exceeds_def)
  next
    case True
    then have "invoked (client (snd (send_controls s t st))) \<noteq> invoked (client s)"
      using l by (cases "connected (client s)")
        (simp_all add: send_controls_delivered send_controls_failed)
    with True show ?thesis by (simp add: exceeds_def)
  qed
next
  assume "last_sent s = Some (0, 0)"
  then show "send_controls s (round_double 0.05) (round_double 0.05) = (Returned, s)"
    by (rule send_controls_suppressed)
      (simp add: exceeds_def float_sub_def threshold_value round_eval)
next
  assume l: "last_sent s = Some (0, 0)"
  have p: "0 \<le> round_double 0.15"
    by (simp add: round_eval)
  have e: "exceeds (0, 0) (round_double 0.15) 0"
    by (simp add: exceeds_def float_sub_def threshold_value round_eval)
  from l e show "invoked (client (snd (send_controls s (round_double 0.15) 0))) =
      invoked (client s) @ [car_controls (snd (send_controls s (round_double 0.15) 0))]"
    by (cases "connected (client s)")
      (simp_all add: send_controls_delivered send_controls_failed)
  from l e show "throttle (car_controls (snd (send_controls s (round_double 0.15) 0))) =
      round_double 0.15"
    by (cases "connected (client s)")
      (simp_all add: send_controls_delivered send_controls_failed command_pair)
  from l e show "steering (car_controls (snd (send_controls s (round_double 0.15) 0))) = 0"
    by (cases "connected (client s)")
      (simp_all add: send_controls_delivered send_controls_failed command_pair)
  from l e p show "\<not> is_manual_gear (car_controls (snd (send_controls s (round_double 0.15) 0)))"
    by (cases "connected (client s)")
      (simp_all add: send_controls_delivered send_controls_failed command_def not_less)
  assume c: "connected (client s)"
  from l e c show "fst (send_controls s (round_double 0.15) 0) = Returned"
    by (simp add: send_controls_delivered)
  from l e c show "last_sent (snd (send_controls s (round_double 0.15) 0)) =
      Some (round_double 0.15, 0)"
    by (simp add: send_controls_delivered last_sent_def)
qed

theorem command_gate_iff_witness:
  "last_sent (main_init (fst connect_airsim) (snd connect_airsim)) = Some (0, 0) \<and>
   connected (client (main_init (fst connect_airsim) (snd connect_airsim))) \<and>
   \<bar>float_sub 0 (round_double 0.15)\<bar> > CONTROL_THROTTLE_THRESHOLD \<and>
   invoked (client (snd (send_controls (main_init (fst connect_airsim) (snd connect_airsim)) (round_double 0.15) 0))) \<noteq> invoked (client (main_init (fst connect_airsim) (snd connect_airsim))) \<and>
   send_controls (main_init (fst connect_airsim) (snd connect_airsim)) (round_double 0.05) (round_double 0.05) = (Returned, (main_init (fst connect_airsim) (snd connect_airsim))) \<and>
   fst (send_controls (main_init (fst connect_airsim) (snd connect_airsim)) (round_double 0.15) 0) = Returned \<and>
   last_sent (snd (send_controls (main_init (fst connect_airsim) (snd connect_airsim)) (round_double 0.15) 0)) = Some (round_double 0.15, 0)"
proof -
  have l: "last_sent (main_init (fst connect_airsim) (snd connect_airsim)) = Some (0, 0)"
    by (simp add: last_sent_def main_init_def)
  have c: "connected (client (main_init (fst connect_airsim) (snd connect_airsim)))"
    by (simp add: main_init_def connect_airsim_def)
  have g: "\<bar>float_sub 0 (round_double 0.15)\<bar> > CONTROL_THROTTLE_THRESHOLD"
    by (simp add: float_sub_def threshold_value round_eval)
  from command_gate_iff [of "(main_init (fst connect_airsim) (snd connect_airsim))" 0 0 "round_double 0.15" 0] l c g
  show ?thesis by simp
qed

text \<open>
  Read over the real numbers, the equivalence of C1 does not hold of the script. First,
  the difference is rounded before it is compared: with \<open>last_sent = (2 powi (- 57), 1/2)\<close>
  and the candidate throttle one step above the double \<^verbatim>\<open>0.1\<close>, the real difference is
  beyond the threshold, the computed one is tied between two doubles and rounds down to
  the threshold itself, and nothing is sent. Second, the values are doubles, not the
  decimals written for them: the floats \<^verbatim>\<open>0.7\<close> and \<^verbatim>\<open>0.8\<close> differ by more than the
  double \<^verbatim>\<open>0.1\<close>, so that \<^verbatim>\<open>0.8\<close> is sent after \<^verbatim>\<open>0.7\<close> although seven tenths and eight
  tenths are not more than one tenth apart; and the double \<^verbatim>\<open>0.1\<close> is itself more than
  one tenth, yet from \<open>(0, 0)\<close> the candidate steering \<^verbatim>\<open>0.1\<close> is not sent.
\<close>

theorem command_gate_real_iff_counterexample:
  "is_double (1 / 2 ^ 57) \<and> is_double (CONTROL_THROTTLE_THRESHOLD + 1 / 2 ^ 56) \<and>
   last_sent (snd (send_controls (main_init (fst connect_airsim) (snd connect_airsim)) (1 / 2 ^ 57) (1 / 2))) = Some (1 / 2 ^ 57, 1 / 2) \<and>
   \<bar>1 / 2 ^ 57 - (CONTROL_THROTTLE_THRESHOLD + 1 / 2 ^ 56)\<bar> > CONTROL_THROTTLE_THRESHOLD \<and>
   send_controls (snd (send_controls (main_init (fst connect_airsim) (snd connect_airsim)) (1 / 2 ^ 57) (1 / 2)))
     (CONTROL_THROTTLE_THRESHOLD + 1 / 2 ^ 56) (1 / 2) =
     (Returned, snd (send_controls (main_init (fst connect_airsim) (snd connect_airsim)) (1 / 2 ^ 57) (1 / 2))) \<and>
   last_sent (snd (send_controls (main_init (fst connect_airsim) (snd connect_airsim)) (round_double 0.7) 0)) = Some (round_double 0.7, 0) \<and>
   \<not> \<bar>0.7 - 0.8\<bar> > (0.1::real) \<and>
   invoked (client (snd (send_controls (snd (send_controls (main_init (fst connect_airsim) (snd connect_airsim)) (round_double 0.7) 0))
     (round_double 0.8) 0))) \<noteq>
     invoked (client (snd (send_controls (main_init (fst connect_airsim) (snd connect_airsim)) (round_double 0.7) 0))) \<and>
   \<bar>0 - round_double 0.1\<bar> > (0.1::real) \<and>
   send_controls (main_init (fst connect_airsim) (snd connect_airsim)) 0 (round_double 0.1) = (Returned, (main_init (fst connect_airsim) (snd connect_airsim)))"
proof -
  have l0: "last_sent (main_init (fst connect_airsim) (snd connect_airsim)) = Some (0, 0)"
    by (simp add: last_sent_def main_init_def)
  have c0: "connected (client (main_init (fst connect_airsim) (snd connect_airsim)))"
    by (simp add: main_init_def connect_airsim_def)
  have d1: "is_double (1 / 2 ^ 57)"
    and d2: "is_double (CONTROL_THROTTLE_THRESHOLD + 1 / 2 ^ 56)"
    by (simp_all add: is_double_def threshold_value round_eval)
  have e1: "exceeds (0, 0) (1 / 2 ^ 57) (1 / 2)"
    by (simp add: exceeds_def float_sub_def threshold_value round_eval)
  note t1 = send_controls_delivered [OF l0 e1 c0]
  have l1: "last_sent (snd (send_controls (main_init (fst connect_airsim) (snd connect_airsim)) (1 / 2 ^ 57) (1 / 2))) = Some (1 / 2 ^ 57, 1 / 2)"
    by (subst t1) (simp add: last_sent_def)
  have r1: "\<bar>1 / 2 ^ 57 - (CONTROL_THROTTLE_THRESHOLD + 1 / 2 ^ 56)\<bar> > CONTROL_THROTTLE_THRESHOLD"
    by (simp add: threshold_value)
  have n1: "\<not> exceeds (1 / 2 ^ 57, 1 / 2) (CONTROL_THROTTLE_THRESHOLD + 1 / 2 ^ 56) (1 / 2)"
    by (simp add: exceeds_def float_sub_def threshold_value round_eval)
  note u1 = send_controls_suppressed [OF l1 n1]
  have e2: "exceeds (0, 0) (round_double 0.7) 0"
    by (simp add: exceeds_def float_sub_def threshold_value round_eval)
  note t2 = send_controls_delivered [OF l0 e2 c0]
  have l2: "last_sent (snd (send_controls (main_init (fst connect_airsim) (snd connect_airsim)) (round_double 0.7) 0)) = Some (round_double 0.7, 0)"
    by (subst t2) (simp add: last_sent_def)
  have c2: "connected (client (snd (send_controls (main_init (fst connect_airsim) (snd connect_airsim)) (round_double 0.7) 0)))"
    by (subst t2) (simp add: c0)
  have r2: "\<not> \<bar>0.7 - 0.8\<bar> > (0.1::real)"
    by simp
  have e3: "exceeds (round_double 0.7, 0) (round_double 0.8) 0"
    by (simp add: exceeds_def float_sub_def threshold_value round_eval)
  have i2: "invoked (client (snd (send_controls (snd (send_controls (main_init (fst connect_airsim) (snd connect_airsim)) (round_double 0.7) 0))
     (round_double 0.8) 0))) \<noteq>
     invoked (client (snd (send_controls (main_init (fst connect_airsim) (snd connect_airsim)) (round_double 0.7) 0)))"
    by (subst send_controls_delivered [OF l2 e3 c2]) simp
  have r3: "\<bar>0 - round_double 0.1\<bar> > (0.1::real)"
    by (simp add: round_eval)
  have n3: "\<not> exceeds (0, 0) 0 (round_double 0.1)"
    by (simp add: exceeds_def float_sub_def threshold_value round_eval)
  note u3 = send_controls_suppressed [OF l0 n3]
  from d1 d2 l1 r1 u1 l2 r2 i2 r3 u3 show ?thesis
    by (intro conjI)
qed

text \<open>
  C3. The Controller State invariant holds in every reachable state: starting from
  \<open>last_sent = (0, 0)\<close> with nothing delivered, after any sequence of calls of
  \<^verbatim>\<open>send_controls\<close> the dictionary holds the pair of the last command that the
  simulator accepted (\<open>(0, 0)\<close> if there is none), and a candidate that the gate
  suppresses changes nothing.
\<close>

theorem controller_state_invariant:
  "reachable s \<Longrightarrow>
   last_sent s = Some (last_delivered (client s)) \<and>
   (\<not> exceeds (last_delivered (client s)) t st \<longrightarrow> send_controls s t st = (Returned, s))"
proof -
  assume "reachable s"
  then have inv: "last_sent s = Some (last_delivered (client s))"
  proof (induction rule: reachable.induct)
    case (init c cc)
    then show ?case
      by (simp add: main_init_def last_sent_def last_delivered_def)
  next
    case (call s cand_throttle cand_steering)
    from call.IH show ?case
      by (rule send_controls_keeps_invariant)
  next
    case (link s b)
    have "last_sent (s\<lparr>client := (client s)\<lparr>connected := b\<rparr>\<rparr>) = last_sent s"
      by (rule last_sent_eqI) simp
    moreover have "last_delivered (client (s\<lparr>client := (client s)\<lparr>connected := b\<rparr>\<rparr>)) =
        last_delivered (client s)"
      by (rule last_delivered_eqI) simp
    ultimately show ?case
      using link.IH by simp
  qed
  then show ?thesis
    by (simp add: send_controls_suppressed)
qed

theorem controller_state_invariant_witness:
  "reachable (snd (send_controls (main_init (fst connect_airsim) (snd connect_airsim)) 0.15 0)) \<and>
   last_sent (snd (send_controls (main_init (fst connect_airsim) (snd connect_airsim)) 0.15 0)) =
     Some (0.15, 0) \<and>
   last_delivered (client (snd (send_controls
     (main_init (fst connect_airsim) (snd connect_airsim)) 0.15 0))) = (0.15, 0) \<and>
   \<not> exceeds (0.15, 0) 0.2 0.1 \<and>
   send_controls (snd (send_controls
     (main_init (fst connect_airsim) (snd connect_airsim)) 0.15 0)) 0.2 0.1 =
     (Returned, snd (send_controls (main_init (fst connect_airsim) (snd connect_airsim)) 0.15 0))"
proof -
  have "received (fst connect_airsim) = []"
    by (simp add: connect_airsim_def)
  then have "reachable (main_init (fst connect_airsim) (snd connect_airsim))"
    by (rule reachable.init)
  then have r: "reachable (snd (send_controls
      (main_init (fst connect_airsim) (snd connect_airsim)) 0.15 0))"
    by (rule reachable.call)
  have l: "last_sent (main_init (fst connect_airsim) (snd connect_airsim)) = Some (0, 0)"
    by (simp add: last_sent_def main_init_def)
  have e: "exceeds (0, 0) 0.15 0"
    by (simp add: exceeds_def float_sub_def threshold_value round_eval)
  have c: "connected (client (main_init (fst connect_airsim) (snd connect_airsim)))"
    by (simp add: main_init_def connect_airsim_def)
  have d: "last_delivered (client (snd (send_controls
     (main_init (fst connect_airsim) (snd connect_airsim)) 0.15 0))) = (0.15, 0)"
    by (subst send_controls_delivered [OF l e c]) (simp add: last_delivered_def command_pair)
  have n: "\<not> exceeds (0.15, 0) 0.2 0.1"
    by (simp add: exceeds_def float_sub_def threshold_value round_eval)
  from controller_state_invariant [OF r, of "0.2" "0.1"] r d n
  show ?thesis by simp
qed

text \<open>
  C4. The comparison of the gate is strict: in every state, a candidate for which the
  difference that the script computes equals the threshold (the double \<^verbatim>\<open>0.1\<close>) on each
  axis is not transmitted and changes nothing.
\<close>

theorem gate_boundary_strict:
  assumes "last_sent s = Some (lt, ls)"
    and "\<bar>float_sub lt t\<bar> = CONTROL_THROTTLE_THRESHOLD"
    and "\<bar>float_sub ls st\<bar> = CONTROL_STEERING_THRESHOLD"
  shows "send_controls s t st = (Returned, s)"
  using assms(1)
proof (rule send_controls_suppressed)
  from assms(2,3) show "\<not> exceeds (lt, ls) t st"
    by (simp add: exceeds_def)
qed

theorem gate_boundary_strict_witness:
  "last_sent (main_init (fst connect_airsim) (snd connect_airsim)) = Some (0, 0) \<and>
   \<bar>float_sub 0 (round_double 0.1)\<bar> = CONTROL_THROTTLE_THRESHOLD \<and>
   \<bar>float_sub 0 (- round_double 0.1)\<bar> = CONTROL_STEERING_THRESHOLD \<and>
   send_controls (main_init (fst connect_airsim) (snd connect_airsim)) (round_double 0.1) (- round_double 0.1) = (Returned, (main_init (fst connect_airsim) (snd connect_airsim)))"
proof -
  have l: "last_sent (main_init (fst connect_airsim) (snd connect_airsim)) = Some (0, 0)"
    by (simp add: last_sent_def main_init_def)
  have a: "\<bar>float_sub 0 (round_double 0.1)\<bar> = CONTROL_THROTTLE_THRESHOLD"
    and b: "\<bar>float_sub 0 (- round_double 0.1)\<bar> = CONTROL_STEERING_THRESHOLD"
    by (simp_all add: float_sub_def threshold_value round_eval)
  from gate_boundary_strict [OF l a b] l a b show ?thesis by simp
qed

text \<open>
  Read on the decimals that the floats stand for, C4 does not hold of the script. The
  frame with the object at \<open>(128, 168)\<close> sets both controls to the float \<^verbatim>\<open>0.3\<close>; the next
  frame, with the object at \<open>(64, 144)\<close>, maps to the float \<^verbatim>\<open>0.4\<close> on both axes. Three
  tenths and four tenths are exactly one tenth apart, but the two doubles differ by more
  than the double \<^verbatim>\<open>0.1\<close>: the candidate is transmitted and becomes the new \<open>last_sent\<close>.
\<close>

theorem gate_boundary_decimal_counterexample:
  "last_sent (snd (main_iteration (main_init (fst connect_airsim) (snd connect_airsim)) (Circle 128 168 20))) =
     Some (round_double 0.3, round_double 0.3) \<and>
   coordinates_to_controls 64 144 = (round_double 0.4, round_double 0.4) \<and>
   \<bar>0.3 - 0.4\<bar> = (0.1::real) \<and>
   send_controls (snd (main_iteration (main_init (fst connect_airsim) (snd connect_airsim)) (Circle 128 168 20)))
     (round_double 0.4) (round_double 0.4) \<noteq>
     (Returned, snd (main_iteration (main_init (fst connect_airsim) (snd connect_airsim)) (Circle 128 168 20))) \<and>
   last_sent (snd (send_controls (snd (main_iteration (main_init (fst connect_airsim) (snd connect_airsim)) (Circle 128 168 20)))
     (round_double 0.4) (round_double 0.4))) =
     Some (round_double 0.4, round_double 0.4) \<and>
   map throttle (received (client (snd (send_controls
     (snd (main_iteration (main_init (fst connect_airsim) (snd connect_airsim)) (Circle 128 168 20)))
     (round_double 0.4) (round_double 0.4))))) = [round_double 0.3, round_double 0.4]"
proof -
  have l0: "last_sent (main_init (fst connect_airsim) (snd connect_airsim)) = Some (0, 0)"
    by (simp add: last_sent_def main_init_def)
  have c0: "connected (client (main_init (fst connect_airsim) (snd connect_airsim)))" and r0: "received (client (main_init (fst connect_airsim) (snd connect_airsim))) = []"
    by (simp_all add: main_init_def connect_airsim_def)
  have m1: "coordinates_to_controls 128 168 = (round_double 0.3, round_double 0.3)"
    by (simp add: prod_eq_iff mapper_throttle mapper_steering
        float_sub_def float_div_def float_mul_def round_eval)
  have m2: "coordinates_to_controls 64 144 = (round_double 0.4, round_double 0.4)"
    by (simp add: prod_eq_iff mapper_throttle mapper_steering
        float_sub_def float_div_def float_mul_def round_eval)
  have i1: "main_iteration (main_init (fst connect_airsim) (snd connect_airsim)) (Circle 128 168 20) =
      send_controls (main_init (fst connect_airsim) (snd connect_airsim)) (round_double 0.3) (round_double 0.3)"
    by (simp add: main_iteration_def THRESHOLD_CONTOUR_def m1)
  have e1: "exceeds (0, 0) (round_double 0.3) (round_double 0.3)"
    by (simp add: exceeds_def float_sub_def threshold_value round_eval)
  note t1 = send_controls_delivered [OF l0 e1 c0]
  have l1: "last_sent (snd (send_controls (main_init (fst connect_airsim) (snd connect_airsim)) (round_double 0.3) (round_double 0.3))) =
      Some (round_double 0.3, round_double 0.3)"
    by (subst t1) (simp add: last_sent_def)
  have c1: "connected (client (snd (send_controls (main_init (fst connect_airsim) (snd connect_airsim)) (round_double 0.3) (round_double 0.3))))"
    by (subst t1) (simp add: c0)
  have r1: "map throttle (received (client
      (snd (send_controls (main_init (fst connect_airsim) (snd connect_airsim)) (round_double 0.3) (round_double 0.3))))) = [round_double 0.3]"
    by (subst t1) (simp add: r0 command_pair)
  have d: "\<bar>0.3 - 0.4\<bar> = (0.1::real)"
    by simp
  have e2: "exceeds (round_double 0.3, round_double 0.3) (round_double 0.4) (round_double 0.4)"
    by (simp add: exceeds_def float_sub_def threshold_value round_eval)
  note t2 = send_controls_delivered [OF l1 e2 c1]
  have n2: "send_controls (snd (send_controls (main_init (fst connect_airsim) (snd connect_airsim)) (round_double 0.3) (round_double 0.3)))
      (round_double 0.4) (round_double 0.4) \<noteq>
      (Returned, snd (send_controls (main_init (fst connect_airsim) (snd connect_airsim)) (round_double 0.3) (round_double 0.3)))"
  proof
    assume "send_controls (snd (send_controls (main_init (fst connect_airsim) (snd connect_airsim)) (round_double 0.3) (round_double 0.3)))
      (round_double 0.4) (round_double 0.4) =
      (Returned, snd (send_controls (main_init (fst connect_airsim) (snd connect_airsim)) (round_double 0.3) (round_double 0.3)))"
    then have "invoked (client (snd (send_controls
        (snd (send_controls (main_init (fst connect_airsim) (snd connect_airsim)) (round_double 0.3) (round_double 0.3)))
        (round_double 0.4) (round_double 0.4)))) =
      invoked (client (snd (send_controls (main_init (fst connect_airsim) (snd connect_airsim)) (round_double 0.3) (round_double 0.3))))"
      by simp
    then show False
      by (subst (asm) t2) simp
  qed
  have l2: "last_sent (snd (send_controls
      (snd (send_controls (main_init (fst connect_airsim) (snd connect_airsim)) (round_double 0.3) (round_double 0.3)))
      (round_double 0.4) (round_double 0.4))) = Some (round_double 0.4, round_double 0.4)"
    by (subst t2) (simp add: last_sent_def)
  have r2: "map throttle (received (client (snd (send_controls
      (snd (send_controls (main_init (fst connect_airsim) (snd connect_airsim)) (round_double 0.3) (round_double 0.3)))
      (round_double 0.4) (round_double 0.4))))) = [round_double 0.3, round_double 0.4]"
    using r1 by (subst t2) (simp add: command_pair)
  from l1 m2 d n2 l2 r2 show ?thesis
    unfolding i1 by (intro conjI)
qed

text \<open>
  C5. Every transmitted command carries the gear that the sign of the candidate throttle
  selects: a negative throttle is sent with the manual gear \<open>-1\<close> (reverse), any other
  throttle with the automatic gear.
\<close>

theorem gear_from_throttle_sign:
  assumes "last_sent s = Some l" and "exceeds l t st"
  shows "invoked (client (snd (send_controls s t st))) =
           invoked (client s) @ [car_controls (snd (send_controls s t st))] \<and>
         (connected (client s) \<longrightarrow>
            received (client (snd (send_controls s t st))) =
              received (client s) @ [car_controls (snd (send_controls s t st))]) \<and>
         throttle (car_controls (snd (send_controls s t st))) = t \<and>
         steering (car_controls (snd (send_controls s t st))) = st \<and>
         is_manual_gear (car_controls (snd (send_controls s t st))) = (t < 0) \<and>
         (t < 0 \<longrightarrow> manual_gear (car_controls (snd (send_controls s t st))) = - 1)"
proof (cases "connected (client s)")
  case True
  from send_controls_delivered [OF assms True] show ?thesis
    by (simp add: command_def)
next
  case False
  from send_controls_failed [OF assms False] False show ?thesis
    by (simp add: command_def)
qed

theorem gear_from_throttle_sign_witness:
  "last_sent (main_init (fst connect_airsim) (snd connect_airsim)) = Some (0, 0) \<and>
   exceeds (0, 0) (- 0.3) 0 \<and>
   received (client (snd (send_controls
     (main_init (fst connect_airsim) (snd connect_airsim)) (- 0.3) 0))) =
     [\<lparr>throttle = - 0.3, steering = 0, is_manual_gear = True, manual_gear = - 1\<rparr>]"
proof -
  have l: "last_sent (main_init (fst connect_airsim) (snd connect_airsim)) = Some (0, 0)"
    by (simp add: last_sent_def main_init_def)
  have e: "exceeds (0, 0) (- 0.3) 0"
    by (simp add: exceeds_def float_sub_def threshold_value round_eval)
  have c: "connected (client (main_init (fst connect_airsim) (snd connect_airsim)))"
    and r: "received (client (main_init (fst connect_airsim) (snd connect_airsim))) = []"
    by (simp_all add: main_init_def connect_airsim_def)
  have "car_controls (snd (send_controls
      (main_init (fst connect_airsim) (snd connect_airsim)) (- 0.3) 0)) =
    \<lparr>throttle = - 0.3, steering = 0, is_manual_gear = True, manual_gear = - 1\<rparr>"
    using gear_from_throttle_sign [OF l e] by simp
  with gear_from_throttle_sign [OF l e] l e c r show ?thesis by simp
qed

text \<open>
  C10. Atomicity of the gate when the simulator fails: the dictionary is assigned only
  after \<^verbatim>\<open>setCarControls\<close> has returned, so whenever \<^verbatim>\<open>send_controls\<close> raises, the
  dictionary is as it was, the simulator has accepted nothing new, and the Controller
  State invariant, if it held before, still holds.
\<close>

theorem failed_send_keeps_last_sent:
  assumes "fst (send_controls s t st) = Raised e"
  shows "status_controls (snd (send_controls s t st)) = status_controls s \<and>
         received (client (snd (send_controls s t st))) = received (client s) \<and>
         (last_sent s = Some (last_delivered (client s)) \<longrightarrow>
            last_sent (snd (send_controls s t st)) =
              Some (last_delivered (client (snd (send_controls s t st)))))"
proof -
  from send_controls_raised_cases [OF assms]
  have "status_controls (snd (send_controls s t st)) = status_controls s \<and>
        received (client (snd (send_controls s t st))) = received (client s)"
  proof
    assume "snd (send_controls s t st) = s"
    then show ?thesis by simp
  next
    assume "\<exists>l. last_sent s = Some l \<and> exceeds l t st \<and> \<not> connected (client s)"
    then obtain l where "last_sent s = Some l" and "exceeds l t st"
      and "\<not> connected (client s)"
      by blast
    then show ?thesis
      by (simp add: send_controls_failed)
  qed
  then have u: "status_controls (snd (send_controls s t st)) = status_controls s"
    and r: "received (client (snd (send_controls s t st))) = received (client s)"
    by simp_all
  from u have "last_sent (snd (send_controls s t st)) = last_sent s"
    by (rule last_sent_eqI)
  moreover from r
  have "last_delivered (client (snd (send_controls s t st))) = last_delivered (client s)"
    by (rule last_delivered_eqI)
  ultimately show ?thesis
    using u r by simp
qed

theorem failed_send_keeps_last_sent_witness:
  "fst (send_controls
     (main_init \<lparr>connected = False, invoked = [], received = []\<rparr> (snd connect_airsim))
     0.5 0) = Raised NotConnected \<and>
   invoked (client (snd (send_controls
     (main_init \<lparr>connected = False, invoked = [], received = []\<rparr> (snd connect_airsim))
     0.5 0))) =
     [\<lparr>throttle = 0.5, steering = 0, is_manual_gear = False, manual_gear = 0\<rparr>] \<and>
   status_controls (snd (send_controls
     (main_init \<lparr>connected = False, invoked = [], received = []\<rparr> (snd connect_airsim))
     0.5 0)) = [''throttle'' \<mapsto> 0, ''steering'' \<mapsto> 0] \<and>
   received (client (snd (send_controls
     (main_init \<lparr>connected = False, invoked = [], received = []\<rparr> (snd connect_airsim))
     0.5 0))) = []"
proof -
  have l: "last_sent
      (main_init \<lparr>connected = False, invoked = [], received = []\<rparr> (snd connect_airsim)) =
      Some (0, 0)"
    by (simp add: last_sent_def main_init_def)
  have e: "exceeds (0, 0) 0.5 0"
    by (simp add: exceeds_def float_sub_def threshold_value round_eval)
  have c: "\<not> connected (client
      (main_init \<lparr>connected = False, invoked = [], received = []\<rparr> (snd connect_airsim)))"
    by (simp add: main_init_def)
  have f: "fst (send_controls
     (main_init \<lparr>connected = False, invoked = [], received = []\<rparr> (snd connect_airsim))
     0.5 0) = Raised NotConnected"
    by (subst send_controls_failed [OF l e c]) simp
  have i: "invoked (client (snd (send_controls
     (main_init \<lparr>connected = False, invoked = [], received = []\<rparr> (snd connect_airsim))
     0.5 0))) =
     [\<lparr>throttle = 0.5, steering = 0, is_manual_gear = False, manual_gear = 0\<rparr>]"
    by (subst send_controls_failed [OF l e c])
      (simp add: main_init_def connect_airsim_def command_def)
  from failed_send_keeps_last_sent [OF f] f i show ?thesis
    by (simp add: main_init_def)
qed

section \<open>The control loop: a contour below the threshold\<close>

text \<open>
  C2 asks that a detection whose radius is at or below \<open>THRESHOLD_CONTOUR\<close> be handled
  like no detection, by handing the stop command \<open>(0, 0)\<close> to the gate. The loop does
  not: the \<^verbatim>\<open>else\<close> that stops the car belongs to \<^verbatim>\<open>if len(contours) > 0\<close>, and
  the inner \<^verbatim>\<open>if radius > THRESHOLD_CONTOUR\<close> has no \<^verbatim>\<open>else\<close>. After a frame with
  the object at \<open>(320, 120)\<close> and radius \<open>20\<close> has set the throttle to \<open>0.5\<close>, a frame with
  a contour of radius \<open>5\<close> leaves every object untouched and the car driving, while a
  frame without contours sends the stop command.
\<close>

theorem small_contour_keeps_driving:
  "last_sent (snd (main_iteration (main_init (fst connect_airsim) (snd connect_airsim))
       (Circle 320 120 20))) = Some (0.5, 0) \<and>
   main_iteration
     (snd (main_iteration (main_init (fst connect_airsim) (snd connect_airsim))
       (Circle 320 120 20)))
     (Circle 320 120 5) =
     (Returned,
      snd (main_iteration (main_init (fst connect_airsim) (snd connect_airsim))
       (Circle 320 120 20))) \<and>
   last_sent (snd (main_iteration
     (snd (main_iteration (main_init (fst connect_airsim) (snd connect_airsim))
       (Circle 320 120 20)))
     NoContours)) = Some (0, 0) \<and>
   map throttle (received (client (snd (main_iteration
     (snd (main_iteration (main_init (fst connect_airsim) (snd connect_airsim))
       (Circle 320 120 20)))
     NoContours)))) = [0.5, 0]"
proof -
  have m: "coordinates_to_controls 320 120 = (0.5, 0)"
    by (simp add: prod_eq_iff mapper_throttle mapper_steering
        float_sub_def float_div_def float_mul_def round_eval)
  have l0: "last_sent (main_init (fst connect_airsim) (snd connect_airsim)) = Some (0, 0)"
    by (simp add: last_sent_def main_init_def)
  have e0: "exceeds (0, 0) 0.5 0"
    by (simp add: exceeds_def float_sub_def threshold_value round_eval)
  have c0: "connected (client (main_init (fst connect_airsim) (snd connect_airsim)))"
    by (simp add: main_init_def connect_airsim_def)
  have s1: "main_iteration (main_init (fst connect_airsim) (snd connect_airsim))
      (Circle 320 120 20) =
      send_controls (main_init (fst connect_airsim) (snd connect_airsim)) 0.5 0"
    by (simp add: main_iteration_def THRESHOLD_CONTOUR_def m)
  note d1 = send_controls_delivered [OF l0 e0 c0]
  have l1: "last_sent (snd (send_controls
      (main_init (fst connect_airsim) (snd connect_airsim)) 0.5 0)) = Some (0.5, 0)"
    by (subst d1) (simp add: last_sent_def)
  have e1: "exceeds (0.5, 0) 0 0"
    by (simp add: exceeds_def float_sub_def threshold_value round_eval)
  have c1: "connected (client (snd (send_controls
      (main_init (fst connect_airsim) (snd connect_airsim)) 0.5 0)))"
    by (subst d1) (simp add: main_init_def connect_airsim_def)
  have r1: "map throttle (received (client (snd (send_controls
      (main_init (fst connect_airsim) (snd connect_airsim)) 0.5 0)))) = [0.5]"
    by (subst d1) (simp add: main_init_def connect_airsim_def command_def)
  note d2 = send_controls_delivered [OF l1 e1 c1]
  have small: "main_iteration
      (snd (send_controls (main_init (fst connect_airsim) (snd connect_airsim)) 0.5 0))
      (Circle 320 120 5) =
      (Returned,
       snd (send_controls (main_init (fst connect_airsim) (snd connect_airsim)) 0.5 0))"
    by (rule insignificant_contour_skips_gate) (simp add: THRESHOLD_CONTOUR_def)
  have none: "main_iteration
      (snd (send_controls (main_init (fst connect_airsim) (snd connect_airsim)) 0.5 0))
      NoContours =
      send_controls
        (snd (send_controls (main_init (fst connect_airsim) (snd connect_airsim)) 0.5 0)) 0 0"
    by (simp add: main_iteration_def)
  have l2: "last_sent (snd (send_controls
      (snd (send_controls (main_init (fst connect_airsim) (snd connect_airsim)) 0.5 0)) 0 0)) =
      Some (0, 0)"
    by (subst d2) (simp add: last_sent_def)
  have r2: "map throttle (received (client (snd (send_controls
      (snd (send_controls (main_init (fst connect_airsim) (snd connect_airsim)) 0.5 0)) 0 0)))) =
      [0.5, 0]"
    using r1 by (subst d2) (simp add: command_def)
  from l1 small l2 r2 show ?thesis
    by (simp only: s1 none simp_thms)
qed


end
